theory Spec2Isabelle
  imports Main "HOL-Library.Multiset"
begin

section \<open>Mastermind back end: guess validation and leaderboard\<close>

text \<open>
  A shallow embedding of \<^verbatim>\<open>amplify/functions/validate-guess/handler.ts\<close>
  (function \<^verbatim>\<open>processEvent\<close>) and of
  \<^verbatim>\<open>amplify/functions/get-leaderboard/handler.ts\<close> (function \<^verbatim>\<open>handler\<close>).
  Pegs are JavaScript strings, numbers are modelled as \<open>int\<close>, the games table is a
  map from the key \<open>(gameId, userId)\<close> to the stored item, and a thrown \<^verbatim>\<open>Error\<close>
  is the left summand of the result.
\<close>

subsection \<open>Data\<close>

text \<open>The three values written to the attribute \<^verbatim>\<open>gameStatus\<close>:
  \<^verbatim>\<open>'playing'\<close>, \<^verbatim>\<open>'won'\<close> and \<^verbatim>\<open>'lost'\<close>.\<close>

datatype Status = Playing | Won | Lost

text \<open>\<^verbatim>\<open>interface ValidateGuessInput { guess: string[] }\<close>\<close>

record ValidateGuessInput =
  guess :: "string list"

text \<open>The value stored under the attribute \<^verbatim>\<open>guess<n>\<close>:
  \<^verbatim>\<open>{ guess, blackPegs, whitePegs }\<close>.\<close>

record GuessRecord = ValidateGuessInput +
  blackPegs :: int
  whitePegs :: int

text \<open>The object returned by \<^verbatim>\<open>processEvent\<close>:
  \<^verbatim>\<open>{ ...payload, blackPegs, whitePegs, guessNumber, gameStatus, secretCode }\<close>;
  \<open>None\<close> in \<open>secretCode\<close> is JavaScript's \<^verbatim>\<open>null\<close>.\<close>

record Response = GuessRecord +
  guessNumber :: int
  gameStatus :: Status
  secretCode :: "string list option"

text \<open>
  An item of the games table. \<open>item_secretCode\<close>, \<open>item_totalGuesses\<close> and
  \<open>item_gameStatus\<close> are the attributes \<^verbatim>\<open>secretCode\<close>, \<^verbatim>\<open>totalGuesses\<close>
  and \<^verbatim>\<open>gameStatus\<close>; \<open>item_guess n\<close> is the attribute \<^verbatim>\<open>guess<n>\<close>.
  An absent \<^verbatim>\<open>totalGuesses\<close> is \<open>None\<close>.
\<close>

record Item =
  item_secretCode :: "string list"
  item_totalGuesses :: "int option"
  item_gameStatus :: Status
  item_guess :: "int \<rightharpoonup> GuessRecord"

type_synonym GamesTable = "(string \<times> string) \<rightharpoonup> Item"

datatype error = GameNotFound

subsection \<open>Scoring a guess\<close>

text \<open>Reading \<^verbatim>\<open>xs[i]\<close>: out of range the value is \<^verbatim>\<open>undefined\<close>, here \<open>None\<close>.\<close>

definition at_js :: "'a list \<Rightarrow> nat \<Rightarrow> 'a option" where
  "at_js xs i = (if i < length xs then Some (xs ! i) else None)"

text \<open>
  \<^verbatim>\<open>for (let i = 0; i < payload.guess.length; i++) {
    if (payload.guess[i] === secretCode[i]) { correctPosition++; } }\<close>
  with \<open>secret\<close> for the stored \<^verbatim>\<open>secretCode\<close> and \<open>guessIds\<close> for
  \<^verbatim>\<open>payload.guess\<close>.
\<close>

function countExact :: "string list \<Rightarrow> string list \<Rightarrow> nat \<Rightarrow> int \<Rightarrow> int" where
  "countExact guessIds secret i correctPosition =
     (if i < length guessIds
      then countExact guessIds secret (i + 1)
             (if at_js guessIds i = at_js secret i
              then correctPosition + 1 else correctPosition)
      else correctPosition)"
  by pat_completeness auto
termination
  by (relation "measure (\<lambda>(g, s, i, c). length g - i)") auto

declare countExact.simps [simp del]

text \<open>\<^verbatim>\<open>Array.prototype.indexOf\<close>: the first index holding the value, \<open>None\<close> for -1.\<close>

fun indexOf :: "'a list \<Rightarrow> 'a \<Rightarrow> nat option" where
  "indexOf [] x = None"
| "indexOf (y # ys) x = (if y = x then Some 0 else map_option Suc (indexOf ys x))"

text \<open>
  \<^verbatim>\<open>for (const guessId of guessIds) {
    const secretIndex = secretIds.indexOf(guessId);
    if (secretIndex !== -1) { correctColor++; secretIds[secretIndex] = ''; } }\<close>
\<close>

fun countColor :: "string list \<Rightarrow> string list \<Rightarrow> int \<Rightarrow> int" where
  "countColor secretIds [] correctColor = correctColor"
| "countColor secretIds (guessId # guessIds) correctColor =
     (case indexOf secretIds guessId of
        None \<Rightarrow> countColor secretIds guessIds correctColor
      | Some secretIndex \<Rightarrow>
          countColor (secretIds[secretIndex := '''']) guessIds (correctColor + 1))"

text \<open>Lines 29 to 51 of \<^verbatim>\<open>processEvent\<close>: the pair
  \<open>(correctPosition, correctColor)\<close> after \<^verbatim>\<open>correctColor -= correctPosition\<close>.\<close>

definition evaluate :: "string list \<Rightarrow> string list \<Rightarrow> int \<times> int" where
  "evaluate secret guessIds =
     (let correctPosition = countExact guessIds secret 0 0;
          correctColor = countColor secret guessIds 0
      in (correctPosition, correctColor - correctPosition))"

subsection \<open>The controller\<close>

definition processEvent ::
  "ValidateGuessInput \<Rightarrow> string \<Rightarrow> string \<Rightarrow> GamesTable \<Rightarrow> (error + Response) \<times> GamesTable" where
  "processEvent payload gameId userId tbl =
     (case tbl (gameId, userId) of
        None \<Rightarrow> (Inl GameNotFound, tbl)
      | Some item \<Rightarrow>
          (let secret = item_secretCode item;
               totalGuesses = (case item_totalGuesses item of None \<Rightarrow> 0 | Some t \<Rightarrow> t);
               n = totalGuesses + 1;
               (correctPosition, correctColor) = evaluate secret (guess payload);
               status = (if correctPosition = int (length secret) then Won
                         else if n \<ge> 10 then Lost
                         else Playing);
               tbl' = tbl((gameId, userId) \<mapsto> item
                        \<lparr> item_totalGuesses := Some n,
                          item_gameStatus := status,
                          item_guess := (item_guess item)(n \<mapsto>
                             \<lparr> guess = guess payload,
                               blackPegs = correctPosition,
                               whitePegs = correctColor \<rparr>) \<rparr>);
               returnSecretCode = (if status = Won then Some secret
                                   else if status = Lost then Some secret
                                   else None)
           in (Inr \<lparr> guess = guess payload,
                     blackPegs = correctPosition,
                     whitePegs = correctColor,
                     guessNumber = n,
                     gameStatus = status,
                     secretCode = returnSecretCode \<rparr>, tbl')))"

text \<open>
  Successive calls of \<^verbatim>\<open>processEvent\<close> on one game, each on the table the
  previous call left. The \<^verbatim>\<open>handler\<close> starts one call for every event of a batch
  and awaits them together; this is the run of separate invocations, and of a batch whose
  calls do not interleave.
\<close>

fun processEvents ::
  "ValidateGuessInput list \<Rightarrow> string \<Rightarrow> string \<Rightarrow> GamesTable \<Rightarrow> (error + Response) list \<times> GamesTable" where
  "processEvents [] gameId userId tbl = ([], tbl)"
| "processEvents (payload # payloads) gameId userId tbl =
     (let (r, tbl') = processEvent payload gameId userId tbl;
          (rs, tbl'') = processEvents payloads gameId userId tbl'
      in (r # rs, tbl''))"

subsection \<open>The leaderboard\<close>

record LeaderboardItem =
  gamesWon :: int
  bestScore :: int
  difficulty :: string

text \<open>The comparator passed to \<^verbatim>\<open>sort\<close>.\<close>

definition compareFn :: "('a LeaderboardItem_scheme) \<Rightarrow> ('a LeaderboardItem_scheme) \<Rightarrow> int" where
  "compareFn a b =
     (if gamesWon a \<noteq> gamesWon b then gamesWon b - gamesWon a
      else bestScore a - bestScore b)"

text \<open>
  \<^verbatim>\<open>Array.prototype.sort(comparefn)\<close> is a stable sort (ECMAScript 2019):
  an element goes in front of the first later element that the comparator does not put
  before it.
\<close>

fun insert_sorted :: "('a \<Rightarrow> 'a \<Rightarrow> int) \<Rightarrow> 'a \<Rightarrow> 'a list \<Rightarrow> 'a list" where
  "insert_sorted cmp x [] = [x]"
| "insert_sorted cmp x (y # ys) =
     (if cmp x y \<le> 0 then x # y # ys else y # insert_sorted cmp x ys)"

fun sort_js :: "('a \<Rightarrow> 'a \<Rightarrow> int) \<Rightarrow> 'a list \<Rightarrow> 'a list" where
  "sort_js cmp [] = []"
| "sort_js cmp (x # xs) = insert_sorted cmp x (sort_js cmp xs)"

text \<open>
  The scan of the leaderboard table: \<open>items\<close> is the table and \<open>difficultyParam\<close>
  the query parameter \<^verbatim>\<open>difficulty\<close>. The filter expression is added only when the
  parameter is truthy, so neither an absent nor an empty parameter filters.
\<close>

definition scanItems ::
  "string option \<Rightarrow> ('a LeaderboardItem_scheme) list \<Rightarrow> ('a LeaderboardItem_scheme) list" where
  "scanItems difficultyParam items =
     (case difficultyParam of
        None \<Rightarrow> items
      | Some d \<Rightarrow> if d = '''' then items else filter (\<lambda>i. difficulty i = d) items)"

text \<open>The list \<^verbatim>\<open>leaderboard\<close> that the handler serialises in its response.\<close>

definition leaderboard ::
  "string option \<Rightarrow> ('a LeaderboardItem_scheme) list \<Rightarrow> ('a LeaderboardItem_scheme) list" where
  "leaderboard difficultyParam items = sort_js compareFn (scanItems difficultyParam items)"

subsection \<open>Auxiliary notions for the statements\<close>

text \<open>The pegs of a sequence that are not the marker \<^verbatim>\<open>''\<close>, as a multiset.\<close>

definition pegs :: "string list \<Rightarrow> string multiset" where
  "pegs xs = filter_mset (\<lambda>x. x \<noteq> '''') (mset xs)"


text \<open>The attempt number and the status that \<^verbatim>\<open>processEvent\<close> computes for a
  stored item and a guess, named for the lemmas below.\<close>

definition nextGuessNumber :: "Item \<Rightarrow> int" where
  "nextGuessNumber item = (case item_totalGuesses item of None \<Rightarrow> 0 | Some t \<Rightarrow> t) + 1"

definition nextStatus :: "Item \<Rightarrow> string list \<Rightarrow> Status" where
  "nextStatus item guessIds =
     (if fst (evaluate (item_secretCode item) guessIds) = int (length (item_secretCode item)) then Won
      else if nextGuessNumber item \<ge> 10 then Lost
      else Playing)"

section \<open>Properties of the scoring loops\<close>

lemma countExact_zip:
  "countExact g s i c = c + int (length (filter (\<lambda>(a, b). a = b) (zip (drop i g) (drop i s))))"
proof (induction g s i c rule: countExact.induct)
  case (1 g s i c)
  show ?case
  proof (cases "i < length g")
    case False
    then show ?thesis by (subst countExact.simps) simp
  next
    case True
    note ig = this
    have dg: "drop i g = g ! i # drop (Suc i) g"
      using True by (simp add: Cons_nth_drop_Suc)
    show ?thesis
    proof (cases "i < length s")
      case True
      have ds: "drop i s = s ! i # drop (Suc i) s"
        using True by (simp add: Cons_nth_drop_Suc)
      show ?thesis
        using "1.IH" [OF ig] ig True
        by (subst countExact.simps) (simp add: dg ds at_js_def)
    next
      case False
      then show ?thesis
        using "1.IH" [OF ig] ig
        by (subst countExact.simps) (simp add: at_js_def)
    qed
  qed
qed

lemma indexOf_None: "indexOf ys x = None \<longleftrightarrow> x \<notin> set ys"
  by (induction ys) auto

lemma indexOf_Some: "indexOf ys x = Some i \<Longrightarrow> i < length ys \<and> ys ! i = x"
  by (induction ys arbitrary: i) (auto split: if_splits)

lemma countColor_upper: "countColor ids gs c \<le> c + int (length gs)"
proof (induction gs arbitrary: ids c)
  case Nil
  show ?case by simp
next
  case (Cons g gs)
  show ?case
  proof (cases "indexOf ids g")
    case None
    then show ?thesis using Cons [of ids c] by simp
  next
    case (Some i)
    then show ?thesis using Cons [of "ids[i := '''']" "c + 1"] by simp
  qed
qed

lemma pegs_mark:
  assumes "i < length ids" 
  shows "pegs (ids[i := '''']) = pegs ids - {#ids ! i#}"
  using assms
  by (auto simp add: pegs_def mset_update multiset_eq_iff)

lemma inter_add_right_in:
  assumes "g \<in># M"
  shows "M \<inter># add_mset g N = add_mset g ((M - {#g#}) \<inter># N)"
proof (rule multiset_eqI)
  fix a
  obtain n where "count M g = Suc n"
    using assms by (cases "count M g") (auto simp add: count_eq_zero_iff)
  then show "count (M \<inter># add_mset g N) a = count (add_mset g ((M - {#g#}) \<inter># N)) a"
    by (cases "a = g") auto
qed

lemma inter_add_right_notin:
  "g \<notin># M \<Longrightarrow> M \<inter># add_mset g N = M \<inter># N"
  by (rule multiset_eqI) (auto simp add: not_in_iff)

lemma pegs_Cons: "pegs (g # gs) = (if g = '''' then pegs gs else add_mset g (pegs gs))"
  by (simp add: pegs_def)

lemma in_pegs: "g \<in># pegs ids \<longleftrightarrow> g \<in> set ids \<and> g \<noteq> ''''"
  by (simp add: pegs_def)

lemma countColor_lower:
  "c + int (size (pegs ids \<inter># pegs gs))
     + (if '''' \<in> set ids then int (count_list gs '''') else 0) \<le> countColor ids gs c"
proof (induction gs arbitrary: ids c)
  case Nil
  show ?case by (simp add: pegs_def)
next
  case (Cons g gs)
  show ?case
  proof (cases "indexOf ids g")
    case None
    then have "g \<notin> set ids" by (simp add: indexOf_None)
    then have "g \<notin># pegs ids" by (simp add: in_pegs)
    then have "pegs ids \<inter># pegs (g # gs) = pegs ids \<inter># pegs gs"
      by (simp add: pegs_Cons inter_add_right_notin)
    moreover have "'''' \<in> set ids \<Longrightarrow> g \<noteq> ''''" using \<open>g \<notin> set ids\<close> by auto
    ultimately show ?thesis using Cons [of c ids] None by auto
  next
    case (Some i)
    then have i: "i < length ids" "ids ! i = g" by (auto dest: indexOf_Some)
    show ?thesis
    proof (cases "g = ''''")
      case True
      then have "ids[i := ''''] = ids" "'''' \<in> set ids"
        using i list_update_id [of ids i] nth_mem [of i ids] by auto
      then show ?thesis using Cons [of "c + 1" ids] Some True by (simp add: pegs_Cons)
    next
      case False
      then have "g \<in># pegs ids" using i by (auto simp add: in_pegs)
      then have "size (pegs ids \<inter># pegs (g # gs)) = Suc (size ((pegs ids - {#g#}) \<inter># pegs gs))"
        using False by (simp add: pegs_Cons inter_add_right_in)
      moreover have "pegs (ids[i := '''']) = pegs ids - {#g#}" using i pegs_mark by auto
      moreover have "'''' \<in> set (ids[i := ''''])" using i by (simp add: set_update_memI)
      ultimately show ?thesis using Cons [of "c + 1" "ids[i := '''']"] Some False by auto
    qed
  qed
qed

lemma countColor_mset:
  "'''' \<notin> set gs \<Longrightarrow> countColor ids gs c = c + int (size (pegs ids \<inter># mset gs))"
proof (induction gs arbitrary: ids c)
  case Nil
  show ?case by simp
next
  case (Cons g gs)
  then have g: "g \<noteq> ''''" and gs: "'''' \<notin> set gs" by auto
  show ?case
  proof (cases "indexOf ids g")
    case None
    then have "g \<notin> set ids" by (simp add: indexOf_None)
    then have "g \<notin># pegs ids" by (simp add: in_pegs)
    then have "pegs ids \<inter># mset (g # gs) = pegs ids \<inter># mset gs"
      by (simp add: inter_add_right_notin)
    then show ?thesis using Cons.IH [OF gs, of ids c] None by simp
  next
    case (Some i)
    then have i: "i < length ids" "ids ! i = g" by (auto dest: indexOf_Some)
    then have "g \<in># pegs ids" using g by (auto simp add: in_pegs)
    then have "size (pegs ids \<inter># mset (g # gs)) = Suc (size ((pegs ids - {#g#}) \<inter># mset gs))"
      by (simp add: inter_add_right_in)
    moreover have "pegs (ids[i := '''']) = pegs ids - {#g#}" using i pegs_mark by auto
    ultimately show ?thesis using Cons.IH [OF gs, of "ids[i := '''']" "c + 1"] Some by simp
  qed
qed

lemma exact_le_common:
  "int (length (filter (\<lambda>(a, b). a = b) (zip gs ss)))
     \<le> int (size (pegs ss \<inter># pegs gs)) + (if '''' \<in> set ss then int (count_list gs '''') else 0)"
proof (induction gs ss rule: list_induct2')
  case (4 g gs s ss)
  have mono: "size (pegs ss \<inter># pegs gs) \<le> size (pegs (s # ss) \<inter># pegs (g # gs))"
  proof (rule size_mset_mono)
    have "pegs ss \<subseteq># pegs (s # ss)" "pegs gs \<subseteq># pegs (g # gs)"
      by (simp_all add: pegs_Cons)
    then show "pegs ss \<inter># pegs gs \<subseteq># pegs (s # ss) \<inter># pegs (g # gs)"
      by (rule subset_mset.inf_mono)
  qed
  show ?case
  proof (cases "g = s")
    case False
    then show ?thesis using 4 mono by (auto split: if_splits)
  next
    case True
    show ?thesis
    proof (cases "g = ''''")
      case e: True
      then show ?thesis using 4 True by (auto simp add: pegs_Cons split: if_splits)
    next
      case False
      then show ?thesis using 4 True by (auto simp add: pegs_Cons split: if_splits)
    qed
  qed
qed simp_all

lemma evaluate_fst:
  "fst (evaluate secret guessIds) = int (length (filter (\<lambda>(a, b). a = b) (zip guessIds secret)))"
  by (simp add: evaluate_def Let_def countExact_zip)

lemma evaluate_snd:
  "snd (evaluate secret guessIds) = countColor secret guessIds 0 - fst (evaluate secret guessIds)"
  by (simp add: evaluate_def Let_def)

lemma evaluate_eq:
  "evaluate secret guessIds =
     (int (length (filter (\<lambda>(a, b). a = b) (zip guessIds secret))),
      countColor secret guessIds 0 - int (length (filter (\<lambda>(a, b). a = b) (zip guessIds secret))))"
  by (simp add: evaluate_def Let_def countExact_zip)

lemma exact_le_countColor:
  "int (length (filter (\<lambda>(a, b). a = b) (zip guessIds secret))) \<le> countColor secret guessIds 0"
  using exact_le_common [of guessIds secret] countColor_lower [of 0 secret guessIds]
  by simp

lemma exact_same: "length (filter (\<lambda>(a, b). a = b) (zip s s)) = length s"
  by (induction s) simp_all

lemma pegs_no_marker: "'''' \<notin> set xs \<Longrightarrow> pegs xs = mset xs"
  by (auto simp add: pegs_def filter_mset_eq_conv)

lemma pegs_inter_no_marker:
  assumes "'''' \<notin> set gs"
  shows "pegs ids \<inter># mset gs = mset ids \<inter># mset gs"
proof (rule multiset_eqI)
  fix a
  show "count (pegs ids \<inter># mset gs) a = count (mset ids \<inter># mset gs) a"
  proof (cases "a = ''''")
    case True
    then have "a \<notin># mset gs" using assms by simp
    then have "count (mset gs) a = 0" by (simp only: count_eq_zero_iff not_False_eq_True)
    then show ?thesis by (simp only: count_inter_mset min_0R)
  next
    case False
    then show ?thesis by (simp add: pegs_def)
  qed
qed

section \<open>The evaluator\<close>

text \<open>
  C7. For every secret and guess of equal length, the two counts computed by
  \<^verbatim>\<open>processEvent\<close> (exact matches \<open>correctPosition\<close>, colour matches
  \<open>correctColor\<close> after the subtraction) are both at least 0 and their sum is at most
  the length of the secret. This holds for all strings, the marker \<^verbatim>\<open>''\<close> included.
\<close>

theorem evaluate_bounds:
  assumes "length secret = length guessIds"
  shows "0 \<le> fst (evaluate secret guessIds)
       \<and> 0 \<le> snd (evaluate secret guessIds)
       \<and> fst (evaluate secret guessIds) + snd (evaluate secret guessIds) \<le> int (length secret)"
proof -
  have "0 \<le> fst (evaluate secret guessIds)"
    by (simp add: evaluate_fst)
  moreover have "0 \<le> snd (evaluate secret guessIds)"
    using exact_le_countColor [of guessIds secret] by (simp add: evaluate_eq)
  moreover have "fst (evaluate secret guessIds) + snd (evaluate secret guessIds) \<le> int (length secret)"
    using countColor_upper [of secret guessIds 0] assms by (simp add: evaluate_eq)
  ultimately show ?thesis by simp
qed

theorem evaluate_bounds_witness:
  "length [''R'', ''G'', ''G'', ''Y''] = length [''G'', ''G'', ''R'', ''B'']
   \<and> evaluate [''R'', ''G'', ''G'', ''Y''] [''G'', ''G'', ''R'', ''B''] = (1, 2)
   \<and> 0 \<le> fst (evaluate [''R'', ''G'', ''G'', ''Y''] [''G'', ''G'', ''R'', ''B''])
   \<and> 0 \<le> snd (evaluate [''R'', ''G'', ''G'', ''Y''] [''G'', ''G'', ''R'', ''B''])
   \<and> fst (evaluate [''R'', ''G'', ''G'', ''Y''] [''G'', ''G'', ''R'', ''B''])
       + snd (evaluate [''R'', ''G'', ''G'', ''Y''] [''G'', ''G'', ''R'', ''B''])
       \<le> int (length [''R'', ''G'', ''G'', ''Y''])"
  using evaluate_bounds [of "[''R'', ''G'', ''G'', ''Y'']" "[''G'', ''G'', ''R'', ''B'']"]
  by (simp add: evaluate_eq)

text \<open>
  C8. A guess identical to the secret scores \<open>(len(s), 0)\<close>: every position is an exact
  match and no colour-only match remains. The code gives this for every sequence, the
  empty one and those holding \<^verbatim>\<open>''\<close> included.
\<close>

theorem evaluate_same:
  "evaluate s s = (int (length s), 0)"
proof -
  have "countColor s s 0 \<le> int (length s)"
    using countColor_upper [of s s 0] by simp
  moreover have "int (length s) \<le> countColor s s 0"
    using exact_le_countColor [of s s] by (simp add: exact_same)
  ultimately show ?thesis
    by (simp add: evaluate_eq exact_same)
qed

theorem evaluate_same_witness:
  "[''R'', '''', ''R''] \<noteq> [] \<and> evaluate [''R'', '''', ''R''] [''R'', '''', ''R''] = (3, 0)"
  using evaluate_same [of "[''R'', '''', ''R'']"] by simp

text \<open>
  C6, as amended. For every secret and guess of equal length in which no guess peg is the
  empty string, the colour matches are the size of the multiset intersection of secret and
  guess minus the exact matches. For distinct pegs \<open>A\<close> and \<open>B\<close>, secret
  \<open>[A,A,B]\<close> against guess \<open>[A,A,A]\<close> scores \<open>(2,0)\<close> when \<open>A\<close> is not the
  empty string, and secret \<open>[A,B,B]\<close> against guess \<open>[B,B,A]\<close> scores \<open>(1,2)\<close>:
  the middle position is an exact match.
\<close>

theorem evaluate_color_multiset:
  "(length secret = length guessIds \<and> '''' \<notin> set guessIds
      \<longrightarrow> snd (evaluate secret guessIds)
            = int (size (mset secret \<inter># mset guessIds)) - fst (evaluate secret guessIds))
   \<and> (A \<noteq> B \<and> A \<noteq> '''' \<longrightarrow> evaluate [A, A, B] [A, A, A] = (2, 0))
   \<and> (A \<noteq> B \<longrightarrow> evaluate [A, B, B] [B, B, A] = (1, 2))"
proof (intro conjI impI)
  assume h: "length secret = length guessIds \<and> '''' \<notin> set guessIds"
  then show "snd (evaluate secret guessIds)
      = int (size (mset secret \<inter># mset guessIds)) - fst (evaluate secret guessIds)"
    using countColor_mset [of guessIds secret 0]
    by (simp add: evaluate_snd pegs_inter_no_marker)
next
  assume "A \<noteq> B \<and> A \<noteq> ''''"
  then show "evaluate [A, A, B] [A, A, A] = (2, 0)"
    by (auto simp add: evaluate_eq)
next
  assume "A \<noteq> B"
  then show "evaluate [A, B, B] [B, B, A] = (1, 2)"
    by (cases "A = ''''"; cases "B = ''''") (auto simp add: evaluate_eq)
qed

theorem evaluate_color_multiset_witness:
  "length [''R'', '''', ''B'', ''Y''] = length [''R'', ''Y'', ''G'', ''B'']
   \<and> '''' \<notin> set [''R'', ''Y'', ''G'', ''B'']
   \<and> evaluate [''R'', '''', ''B'', ''Y''] [''R'', ''Y'', ''G'', ''B''] = (1, 2)
   \<and> snd (evaluate [''R'', '''', ''B'', ''Y''] [''R'', ''Y'', ''G'', ''B''])
       = int (size (mset [''R'', '''', ''B'', ''Y''] \<inter># mset [''R'', ''Y'', ''G'', ''B'']))
         - fst (evaluate [''R'', '''', ''B'', ''Y''] [''R'', ''Y'', ''G'', ''B''])
   \<and> ''A'' \<noteq> ''B'' \<and> ''A'' \<noteq> ''''
   \<and> evaluate [''A'', ''A'', ''B''] [''A'', ''A'', ''A''] = (2, 0)
   \<and> evaluate [''A'', ''B'', ''B''] [''B'', ''B'', ''A''] = (1, 2)"
  using evaluate_color_multiset [of "[''R'', '''', ''B'', ''Y'']" "[''R'', ''Y'', ''G'', ''B'']" "''A''" "''B''"]
  by (simp add: evaluate_eq)

text \<open>
  The unamended statement fails. Secret \<open>[A,B,B]\<close> against guess \<open>[B,B,A]\<close> scores
  \<open>(1,2)\<close>, not \<open>(0,3)\<close>. With the empty string as a guess peg, secret \<open>[A,B]\<close>
  against guess \<open>[A,'']\<close> scores one colour match, where the multiset intersection (one
  element) minus the exact matches (one) is 0; and secret \<open>['','',B]\<close> against guess
  \<open>['','','']\<close> scores \<open>(2,1)\<close>.
\<close>

theorem evaluate_color_counterexample:
  "length [''A'', ''B''] = length [''A'', '''']
   \<and> evaluate [''A'', ''B''] [''A'', ''''] = (1, 1)
   \<and> int (size (mset [''A'', ''B''] \<inter># mset [''A'', ''''])) - fst (evaluate [''A'', ''B''] [''A'', '''']) = 0
   \<and> evaluate [''A'', ''B'', ''B''] [''B'', ''B'', ''A''] = (1, 2)
   \<and> evaluate ['''', '''', ''B''] ['''', '''', ''''] = (2, 1)"
  by (simp add: evaluate_eq)

text \<open>
  C10. The colour pass marks a consumed entry of its copy of the secret with
  \<^verbatim>\<open>''\<close>, so after any match a guess peg \<^verbatim>\<open>''\<close> is found by \<^verbatim>\<open>indexOf\<close>.
  When no peg of secret or guess is the empty string, the count of the colour pass is the
  size of the multiset intersection of secret and guess; without that precondition it
  need not be: secret \<open>[A,B]\<close> against guess \<open>[A,'']\<close> counts 2, the second for the
  slot the first peg consumed, where the intersection has one element.
\<close>

theorem marker_matches_consumed_slot:
  "(indexOf secretIds guessId = Some secretIndex
      \<longrightarrow> indexOf (secretIds[secretIndex := '''']) '''' \<noteq> None)
   \<and> ('''' \<notin> set secret \<and> '''' \<notin> set guessIds
      \<longrightarrow> countColor secret guessIds 0 = int (size (mset secret \<inter># mset guessIds)))
   \<and> indexOf ([''A'', ''B''][0 := '''']) '''' = Some 0
   \<and> countColor [''A'', ''B''] [''A'', ''''] 0 = 2
   \<and> int (size (mset [''A'', ''B''] \<inter># mset [''A'', ''''])) = 1"
proof (intro conjI impI)
  assume "indexOf secretIds guessId = Some secretIndex"
  then have "secretIndex < length secretIds" by (auto dest: indexOf_Some)
  then have "'''' \<in> set (secretIds[secretIndex := ''''])" by (simp add: set_update_memI)
  then show "indexOf (secretIds[secretIndex := '''']) '''' \<noteq> None"
    by (simp add: indexOf_None)
next
  assume "'''' \<notin> set secret \<and> '''' \<notin> set guessIds"
  then show "countColor secret guessIds 0 = int (size (mset secret \<inter># mset guessIds))"
    using countColor_mset [of guessIds secret 0] by (simp add: pegs_no_marker)
qed simp_all

theorem marker_matches_consumed_slot_witness:
  "indexOf [''R'', ''G''] ''G'' = Some 1
   \<and> indexOf ([''R'', ''G''][1 := '''']) '''' \<noteq> None
   \<and> '''' \<notin> set [''R'', ''G'', ''G''] \<and> '''' \<notin> set [''G'', ''R'', ''R'']
   \<and> countColor [''R'', ''G'', ''G''] [''G'', ''R'', ''R''] 0 = 2
   \<and> countColor [''R'', ''G'', ''G''] [''G'', ''R'', ''R''] 0
       = int (size (mset [''R'', ''G'', ''G''] \<inter># mset [''G'', ''R'', ''R'']))"
  using marker_matches_consumed_slot
    [of "[''R'', ''G'']" "''G''" 1 "[''R'', ''G'', ''G'']" "[''G'', ''R'', ''R'']"]
  by simp

section \<open>The controller\<close>

lemma processEvent_missing:
  "tbl (gameId, userId) = None \<Longrightarrow> processEvent payload gameId userId tbl = (Inl GameNotFound, tbl)"
  by (simp add: processEvent_def)

lemma processEvent_found:
  assumes "tbl (gameId, userId) = Some item"
  shows "processEvent payload gameId userId tbl =
     (Inr \<lparr> guess = guess payload,
            blackPegs = fst (evaluate (item_secretCode item) (guess payload)),
            whitePegs = snd (evaluate (item_secretCode item) (guess payload)),
            guessNumber = nextGuessNumber item,
            gameStatus = nextStatus item (guess payload),
            secretCode = (if nextStatus item (guess payload) = Playing then None
                          else Some (item_secretCode item)) \<rparr>,
      tbl((gameId, userId) \<mapsto> item
         \<lparr> item_totalGuesses := Some (nextGuessNumber item),
           item_gameStatus := nextStatus item (guess payload),
           item_guess := (item_guess item)(nextGuessNumber item \<mapsto>
              \<lparr> guess = guess payload,
                blackPegs = fst (evaluate (item_secretCode item) (guess payload)),
                whitePegs = snd (evaluate (item_secretCode item) (guess payload)) \<rparr>) \<rparr>))"
  using assms
  by (simp add: processEvent_def Let_def nextGuessNumber_def nextStatus_def split_beta)

text \<open>
  C4. For a stored game whose status is \<open>Playing\<close> and a guess as long as the secret,
  \<^verbatim>\<open>processEvent\<close> returns a response whose status is \<open>Won\<close> when the exact
  matches equal the length of the secret, whatever the attempt number; otherwise
  \<open>Lost\<close> when the attempt number (the stored \<^verbatim>\<open>totalGuesses\<close>, 0 when absent, plus
  one) is at least 10; otherwise \<open>Playing\<close>. The same status is written to the table.
\<close>

theorem processEvent_status_order:
  assumes "tbl (gameId, userId) = Some item"
    and "item_gameStatus item = Playing"
    and "length (guess payload) = length (item_secretCode item)"
  shows "case processEvent payload gameId userId tbl of
           (Inl e, tbl') \<Rightarrow> False
         | (Inr r, tbl') \<Rightarrow>
             blackPegs r = fst (evaluate (item_secretCode item) (guess payload))
           \<and> guessNumber r = (case item_totalGuesses item of None \<Rightarrow> 0 | Some t \<Rightarrow> t) + 1
           \<and> gameStatus r =
                (if blackPegs r = int (length (item_secretCode item)) then Won
                 else if guessNumber r \<ge> 10 then Lost
                 else Playing)
           \<and> map_option item_gameStatus (tbl' (gameId, userId)) = Some (gameStatus r)"
  using assms(1)
  by (simp add: processEvent_found nextGuessNumber_def nextStatus_def)


theorem processEvent_status_order_witness:
  "[(''g1'', ''u1'') \<mapsto> \<lparr> item_secretCode = [''R'', ''G''], item_totalGuesses = Some 9,
       item_gameStatus = Playing, item_guess = Map.empty \<rparr>] (''g1'', ''u1'')
     = Some \<lparr> item_secretCode = [''R'', ''G''], item_totalGuesses = Some 9,
          item_gameStatus = Playing, item_guess = Map.empty \<rparr>
   \<and> item_gameStatus \<lparr> item_secretCode = [''R'', ''G''], item_totalGuesses = Some 9,
          item_gameStatus = Playing, item_guess = Map.empty \<rparr> = Playing
   \<and> length (guess \<lparr> guess = [''R'', ''G''] \<rparr>) = length [''R'', ''G'']
   \<and> (case processEvent \<lparr> guess = [''R'', ''G''] \<rparr> ''g1'' ''u1''
           [(''g1'', ''u1'') \<mapsto> \<lparr> item_secretCode = [''R'', ''G''], item_totalGuesses = Some 9,
              item_gameStatus = Playing, item_guess = Map.empty \<rparr>] of
         (Inl e, tbl') \<Rightarrow> False
       | (Inr r, tbl') \<Rightarrow>
           blackPegs r = 2 \<and> guessNumber r = 10 \<and> gameStatus r = Won
         \<and> map_option item_gameStatus (tbl' (''g1'', ''u1'')) = Some Won)"
  using processEvent_status_order
    [of "[(''g1'', ''u1'') \<mapsto> \<lparr> item_secretCode = [''R'', ''G''], item_totalGuesses = Some 9,
                   item_gameStatus = Playing, item_guess = Map.empty \<rparr>]"
        "''g1''" "''u1''"
        "\<lparr> item_secretCode = [''R'', ''G''], item_totalGuesses = Some 9,
                   item_gameStatus = Playing, item_guess = Map.empty \<rparr>"
        "\<lparr> guess = [''R'', ''G''] \<rparr>"]
  by (simp add: processEvent_def Let_def evaluate_eq)

text \<open>
  C5. In every response of \<^verbatim>\<open>processEvent\<close> the field \<^verbatim>\<open>secretCode\<close> is
  \<^verbatim>\<open>null\<close> exactly when the returned status is \<open>Playing\<close>, and is the stored
  secret of the game exactly when the returned status is \<open>Won\<close> or \<open>Lost\<close>.
\<close>

theorem processEvent_secret_disclosure:
  assumes "fst (processEvent payload gameId userId tbl) = Inr r"
  shows "(secretCode r = None \<longleftrightarrow> gameStatus r = Playing)
       \<and> (secretCode r = map_option item_secretCode (tbl (gameId, userId))
            \<longleftrightarrow> gameStatus r = Won \<or> gameStatus r = Lost)"
proof (cases "tbl (gameId, userId)")
  case None
  then show ?thesis using assms by (simp add: processEvent_missing)
next
  case (Some item)
  have "nextStatus item (guess payload) \<noteq> Playing \<longleftrightarrow>
        nextStatus item (guess payload) = Won \<or> nextStatus item (guess payload) = Lost"
    by (cases "nextStatus item (guess payload)") simp_all
  then show ?thesis
    using assms Some by (auto simp add: processEvent_found)
qed

theorem processEvent_secret_disclosure_witness:
  "fst (processEvent \<lparr> guess = [''R'', ''B''] \<rparr> ''g1'' ''u1''
         [(''g1'', ''u1'') \<mapsto> \<lparr> item_secretCode = [''R'', ''G''], item_totalGuesses = Some 9,
              item_gameStatus = Playing, item_guess = Map.empty \<rparr>])
     = Inr \<lparr> guess = [''R'', ''B''], blackPegs = 1, whitePegs = 0, guessNumber = 10,
             gameStatus = Lost, secretCode = Some [''R'', ''G''] \<rparr>
   \<and> secretCode \<lparr> guess = [''R'', ''B''], blackPegs = 1, whitePegs = 0, guessNumber = 10,
             gameStatus = Lost, secretCode = Some [''R'', ''G''] \<rparr>
     = map_option item_secretCode
         ([(''g1'', ''u1'') \<mapsto> \<lparr> item_secretCode = [''R'', ''G''], item_totalGuesses = Some 9,
              item_gameStatus = Playing, item_guess = Map.empty \<rparr>] (''g1'', ''u1''))
   \<and> fst (processEvent \<lparr> guess = [''R'', ''B''] \<rparr> ''g1'' ''u1''
         [(''g1'', ''u1'') \<mapsto> \<lparr> item_secretCode = [''R'', ''G''], item_totalGuesses = Some 3,
              item_gameStatus = Playing, item_guess = Map.empty \<rparr>])
     = Inr \<lparr> guess = [''R'', ''B''], blackPegs = 1, whitePegs = 0, guessNumber = 4,
             gameStatus = Playing, secretCode = None \<rparr>"
  using processEvent_secret_disclosure
    [of "\<lparr> guess = [''R'', ''B''] \<rparr>" "''g1''" "''u1''"
        "[(''g1'', ''u1'') \<mapsto> \<lparr> item_secretCode = [''R'', ''G''], item_totalGuesses = Some 9,
              item_gameStatus = Playing, item_guess = Map.empty \<rparr>]"
        "\<lparr> guess = [''R'', ''B''], blackPegs = 1, whitePegs = 0, guessNumber = 10,
             gameStatus = Lost, secretCode = Some [''R'', ''G''] \<rparr>"]
  by (simp add: processEvent_def Let_def evaluate_eq)





text \<open>
  The length of the guess is never compared with the length of the secret: a guess one peg
  longer than the secret whose first pegs match wins the game, and a shorter guess is
  scored like any other.
\<close>

theorem guess_length_counterexample:
  "length (guess \<lparr> guess = [''R'', ''G'', ''B''] \<rparr>) \<noteq> length [''R'', ''G'']
   \<and> fst (processEvent \<lparr> guess = [''R'', ''G'', ''B''] \<rparr> ''g1'' ''u1''
         [(''g1'', ''u1'') \<mapsto> \<lparr> item_secretCode = [''R'', ''G''], item_totalGuesses = None,
              item_gameStatus = Playing, item_guess = Map.empty \<rparr>])
     = Inr \<lparr> guess = [''R'', ''G'', ''B''], blackPegs = 2, whitePegs = 0, guessNumber = 1,
             gameStatus = Won, secretCode = Some [''R'', ''G''] \<rparr>
   \<and> length (guess \<lparr> guess = [''G''] \<rparr>) \<noteq> length [''R'', ''G'']
   \<and> fst (processEvent \<lparr> guess = [''G''] \<rparr> ''g1'' ''u1''
         [(''g1'', ''u1'') \<mapsto> \<lparr> item_secretCode = [''R'', ''G''], item_totalGuesses = None,
              item_gameStatus = Playing, item_guess = Map.empty \<rparr>])
     = Inr \<lparr> guess = [''G''], blackPegs = 0, whitePegs = 1, guessNumber = 1,
             gameStatus = Playing, secretCode = None \<rparr>"
  by (simp add: processEvent_def Let_def evaluate_eq)

text \<open>
  C2, as amended. For a stored game and a guess whose length differs from the length of the
  secret, \<^verbatim>\<open>processEvent\<close> does not fail: it returns a score, the exact matches
  counted over the positions both sequences have and the colour matches as the count of
  the colour pass minus the exact matches, and stores it as the guess record.
\<close>

theorem guess_length_unchecked:
  assumes "tbl (gameId, userId) = Some item"
    and "length (guess payload) \<noteq> length (item_secretCode item)"
  shows "case processEvent payload gameId userId tbl of
           (Inl e, tbl') \<Rightarrow> False
         | (Inr r, tbl') \<Rightarrow>
             blackPegs r = int (length (filter (\<lambda>(g, s). g = s)
                                 (zip (guess payload) (item_secretCode item))))
           \<and> whitePegs r = countColor (item_secretCode item) (guess payload) 0 - blackPegs r
           \<and> map_option (\<lambda>i. item_guess i (guessNumber r)) (tbl' (gameId, userId))
               = Some (Some \<lparr> guess = guess payload, blackPegs = blackPegs r,
                               whitePegs = whitePegs r \<rparr>)"
  using assms(1)
  by (simp add: processEvent_found evaluate_eq)

theorem guess_length_unchecked_witness:
  "[(''g1'', ''u1'') \<mapsto> \<lparr> item_secretCode = [''R'', ''G''], item_totalGuesses = None,
       item_gameStatus = Playing, item_guess = Map.empty \<rparr>] (''g1'', ''u1'')
     = Some \<lparr> item_secretCode = [''R'', ''G''], item_totalGuesses = None,
          item_gameStatus = Playing, item_guess = Map.empty \<rparr>
   \<and> length (guess \<lparr> guess = [''G''] \<rparr>) \<noteq> length [''R'', ''G'']
   \<and> (case processEvent \<lparr> guess = [''G''] \<rparr> ''g1'' ''u1''
           [(''g1'', ''u1'') \<mapsto> \<lparr> item_secretCode = [''R'', ''G''], item_totalGuesses = None,
              item_gameStatus = Playing, item_guess = Map.empty \<rparr>] of
         (Inl e, tbl') \<Rightarrow> False
       | (Inr r, tbl') \<Rightarrow>
           blackPegs r = 0 \<and> whitePegs r = 1
         \<and> map_option (\<lambda>i. item_guess i (guessNumber r)) (tbl' (''g1'', ''u1''))
             = Some (Some \<lparr> guess = [''G''], blackPegs = 0, whitePegs = 1 \<rparr>))"
  using guess_length_unchecked
    [of "[(''g1'', ''u1'') \<mapsto> \<lparr> item_secretCode = [''R'', ''G''], item_totalGuesses = None,
           item_gameStatus = Playing, item_guess = Map.empty \<rparr>]"
        "''g1''" "''u1''"
        "\<lparr> item_secretCode = [''R'', ''G''], item_totalGuesses = None,
           item_gameStatus = Playing, item_guess = Map.empty \<rparr>"
        "\<lparr> guess = [''G''] \<rparr>"]
  by (simp add: processEvent_def Let_def evaluate_eq)


text \<open>
  A status \<open>Won\<close> reached earlier does not last: from a fresh \<open>Playing\<close> game the
  secret itself and then a wrong guess give \<open>Won\<close> and then \<open>Playing\<close>, in the
  responses and in the table.
\<close>

theorem status_downgrade_counterexample:
  "item_gameStatus \<lparr> item_secretCode = [''R'', ''G''], item_totalGuesses = None,
       item_gameStatus = Playing, item_guess = Map.empty \<rparr> = Playing
   \<and> map (map_sum id gameStatus)
        (fst (processEvents [\<lparr> guess = [''R'', ''G''] \<rparr>, \<lparr> guess = [''G'', ''R''] \<rparr>] ''g1'' ''u1''
           [(''g1'', ''u1'') \<mapsto> \<lparr> item_secretCode = [''R'', ''G''], item_totalGuesses = None,
              item_gameStatus = Playing, item_guess = Map.empty \<rparr>]))
     = [Inr Won, Inr Playing]
   \<and> map_option item_gameStatus
        (snd (processEvents [\<lparr> guess = [''R'', ''G''] \<rparr>, \<lparr> guess = [''G'', ''R''] \<rparr>] ''g1'' ''u1''
           [(''g1'', ''u1'') \<mapsto> \<lparr> item_secretCode = [''R'', ''G''], item_totalGuesses = None,
              item_gameStatus = Playing, item_guess = Map.empty \<rparr>]) (''g1'', ''u1''))
     = Some Playing"
  by (simp add: processEvent_def Let_def evaluate_eq)

lemma processEvents_length:
  "length (fst (processEvents payloads gameId userId tbl)) = length payloads"
  by (induction payloads arbitrary: tbl) (simp_all add: split_beta Let_def)

lemma processEvents_append:
  "processEvents (ps @ qs) gameId userId tbl =
     (fst (processEvents ps gameId userId tbl)
        @ fst (processEvents qs gameId userId (snd (processEvents ps gameId userId tbl))),
      snd (processEvents qs gameId userId (snd (processEvents ps gameId userId tbl))))"
  by (induction ps arbitrary: tbl) (simp_all add: split_beta Let_def)

lemma nextStatus_capped:
  "10 \<le> nextGuessNumber item \<Longrightarrow> nextStatus item g \<noteq> Playing"
  by (simp add: nextStatus_def)

lemma nextStatus_Lost:
  "nextStatus item g = Lost \<Longrightarrow> 10 \<le> nextGuessNumber item"
  by (simp add: nextStatus_def split: if_splits)

lemma processEvents_capped:
  assumes "tbl (gameId, userId) = Some item" and "10 \<le> nextGuessNumber item"
  shows "\<forall>x \<in> set (fst (processEvents payloads gameId userId tbl)).
           case x of Inl e \<Rightarrow> False | Inr r \<Rightarrow> gameStatus r \<noteq> Playing"
  using assms
proof (induction payloads arbitrary: tbl item)
  case Nil
  show ?case by simp
next
  case (Cons p ps)
  let ?item' = "item \<lparr> item_totalGuesses := Some (nextGuessNumber item),
                   item_gameStatus := nextStatus item (guess p),
                   item_guess := (item_guess item)(nextGuessNumber item \<mapsto>
                      \<lparr> guess = guess p,
                        blackPegs = fst (evaluate (item_secretCode item) (guess p)),
                        whitePegs = snd (evaluate (item_secretCode item) (guess p)) \<rparr>) \<rparr>"
  have found: "snd (processEvent p gameId userId tbl) (gameId, userId) = Some ?item'"
    using Cons.prems(1) by (simp add: processEvent_found)
  have "10 \<le> nextGuessNumber ?item'"
    using Cons.prems(2) by (simp add: nextGuessNumber_def)
  then have rest: "\<forall>x \<in> set (fst (processEvents ps gameId userId (snd (processEvent p gameId userId tbl)))).
           case x of Inl e \<Rightarrow> False | Inr r \<Rightarrow> gameStatus r \<noteq> Playing"
    using Cons.IH [of "snd (processEvent p gameId userId tbl)" ?item', OF found] by simp
  have "case fst (processEvent p gameId userId tbl) of Inl e \<Rightarrow> False
        | Inr r \<Rightarrow> gameStatus r \<noteq> Playing"
    using Cons.prems by (simp add: processEvent_found nextStatus_capped)
  then show ?case using rest by (simp add: split_beta Let_def)
qed

text \<open>
  C3, as amended. In every sequence of \<^verbatim>\<open>processEvent\<close> calls on one game, once a
  call has returned \<open>Lost\<close>, or \<open>Won\<close> at an attempt number of at least 9, every
  later call returns a response whose status is not \<open>Playing\<close>.
\<close>

theorem status_never_playing_after_cap:
  assumes run: "fst (processEvents payloads gameId userId tbl) = rs1 @ Inr r # rs2"
    and ended: "gameStatus r = Lost \<or> (gameStatus r = Won \<and> 9 \<le> guessNumber r)"
  shows "\<forall>x \<in> set rs2. case x of Inl e \<Rightarrow> False | Inr r' \<Rightarrow> gameStatus r' \<noteq> Playing"
proof -
  let ?k = "length rs1"
  let ?t1 = "snd (processEvents (take ?k payloads) gameId userId tbl)"
  let ?p = "payloads ! ?k"
  let ?t2 = "snd (processEvent ?p gameId userId ?t1)"
  have len: "length payloads = length rs1 + Suc (length rs2)"
    using processEvents_length [of payloads gameId userId tbl] run by simp
  then have k: "?k < length payloads" by simp
  have split: "payloads = take ?k payloads @ ?p # drop (Suc ?k) payloads"
    using k by (simp add: id_take_nth_drop [symmetric])
  have "fst (processEvents payloads gameId userId tbl) =
          fst (processEvents (take ?k payloads) gameId userId tbl)
          @ fst (processEvent ?p gameId userId ?t1)
          # fst (processEvents (drop (Suc ?k) payloads) gameId userId ?t2)"
    by (subst split) (simp add: processEvents_append split_beta Let_def)
  moreover have "length (fst (processEvents (take ?k payloads) gameId userId tbl)) = length rs1"
    using k by (simp add: processEvents_length)
  ultimately have step: "fst (processEvent ?p gameId userId ?t1) = Inr r"
    and rest: "fst (processEvents (drop (Suc ?k) payloads) gameId userId ?t2) = rs2"
    using run by simp_all
  obtain item where item: "?t1 (gameId, userId) = Some item"
    using step by (cases "?t1 (gameId, userId)") (simp_all add: processEvent_missing)
  have r: "gameStatus r = nextStatus item (guess ?p)" "guessNumber r = nextGuessNumber item"
    using step item by (auto simp add: processEvent_found)
  have "9 \<le> nextGuessNumber item"
    using ended r nextStatus_Lost [of item "guess ?p"] by auto
  moreover obtain item' where item': "?t2 (gameId, userId) = Some item'"
    and "item_totalGuesses item' = Some (nextGuessNumber item)"
    using item by (simp add: processEvent_found)
  ultimately have "10 \<le> nextGuessNumber item'"
    by (simp add: nextGuessNumber_def)
  then show ?thesis
    using processEvents_capped [of ?t2 gameId userId item' "drop (Suc ?k) payloads", OF item'] rest
    by simp
qed

theorem status_never_playing_after_cap_witness:
  "fst (processEvents [\<lparr> guess = [''G'', ''R''] \<rparr>, \<lparr> guess = [''B'', ''B''] \<rparr>,
                       \<lparr> guess = [''R'', ''G''] \<rparr>] ''g1'' ''u1''
           [(''g1'', ''u1'') \<mapsto> \<lparr> item_secretCode = [''R'', ''G''], item_totalGuesses = Some 9,
              item_gameStatus = Playing, item_guess = Map.empty \<rparr>])
     = [] @ Inr \<lparr> guess = [''G'', ''R''], blackPegs = 0, whitePegs = 2, guessNumber = 10,
                  gameStatus = Lost, secretCode = Some [''R'', ''G''] \<rparr>
          # [Inr \<lparr> guess = [''B'', ''B''], blackPegs = 0, whitePegs = 0, guessNumber = 11,
                    gameStatus = Lost, secretCode = Some [''R'', ''G''] \<rparr>,
             Inr \<lparr> guess = [''R'', ''G''], blackPegs = 2, whitePegs = 0, guessNumber = 12,
                    gameStatus = Won, secretCode = Some [''R'', ''G''] \<rparr>]
   \<and> list_all (\<lambda>x. case x of Inl e \<Rightarrow> False | Inr r' \<Rightarrow> gameStatus r' \<noteq> Playing)
        [Inr \<lparr> guess = [''B'', ''B''], blackPegs = 0, whitePegs = 0, guessNumber = 11,
                    gameStatus = Lost, secretCode = Some [''R'', ''G''] \<rparr>,
         Inr \<lparr> guess = [''R'', ''G''], blackPegs = 2, whitePegs = 0, guessNumber = 12,
                    gameStatus = Won, secretCode = Some [''R'', ''G''] \<rparr>]"
  using status_never_playing_after_cap
    [of "[\<lparr> guess = [''G'', ''R''] \<rparr>, \<lparr> guess = [''B'', ''B''] \<rparr>, \<lparr> guess = [''R'', ''G''] \<rparr>]"
        "''g1''" "''u1''"
        "[(''g1'', ''u1'') \<mapsto> \<lparr> item_secretCode = [''R'', ''G''], item_totalGuesses = Some 9,
              item_gameStatus = Playing, item_guess = Map.empty \<rparr>]"
        "[]"
        "\<lparr> guess = [''G'', ''R''], blackPegs = 0, whitePegs = 2, guessNumber = 10,
                  gameStatus = Lost, secretCode = Some [''R'', ''G''] \<rparr>"
        "[Inr \<lparr> guess = [''B'', ''B''], blackPegs = 0, whitePegs = 0, guessNumber = 11,
                    gameStatus = Lost, secretCode = Some [''R'', ''G''] \<rparr>,
          Inr \<lparr> guess = [''R'', ''G''], blackPegs = 2, whitePegs = 0, guessNumber = 12,
                    gameStatus = Won, secretCode = Some [''R'', ''G''] \<rparr>]"]
  by (simp add: processEvent_def Let_def evaluate_eq)

section \<open>The leaderboard ranking\<close>

lemma compareFn_le:
  "compareFn a b \<le> 0 \<longleftrightarrow>
     gamesWon b < gamesWon a \<or> (gamesWon a = gamesWon b \<and> bestScore a \<le> bestScore b)"
  by (auto simp add: compareFn_def)

lemma mset_insert_sorted: "mset (insert_sorted cmp x ys) = add_mset x (mset ys)"
  by (induction ys) simp_all

lemma mset_sort_js: "mset (sort_js cmp xs) = mset xs"
  by (induction xs) (simp_all add: mset_insert_sorted)

lemma set_insert_sorted: "set (insert_sorted cmp x ys) = insert x (set ys)"
  using mset_insert_sorted [of cmp x ys, THEN arg_cong, of set_mset] by simp

lemma sorted_insert_sorted:
  assumes "sorted_wrt (\<lambda>a b. compareFn a b \<le> 0) ys"
  shows "sorted_wrt (\<lambda>a b. compareFn a b \<le> 0) (insert_sorted compareFn x ys)"
  using assms
proof (induction ys)
  case Nil
  show ?case by simp
next
  case (Cons y ys)
  show ?case
  proof (cases "compareFn x y \<le> 0")
    case True
    have "\<forall>z \<in> set ys. compareFn x z \<le> 0"
    proof
      fix z assume "z \<in> set ys"
      then have "compareFn y z \<le> 0" using Cons.prems by simp
      then show "compareFn x z \<le> 0" using True by (auto simp add: compareFn_le)
    qed
    then show ?thesis using True Cons.prems by simp
  next
    case False
    then have "compareFn y x \<le> 0" by (auto simp add: compareFn_le)
    then show ?thesis using False Cons by (simp add: set_insert_sorted)
  qed
qed

lemma sorted_sort_js: "sorted_wrt (\<lambda>a b. compareFn a b \<le> 0) (sort_js compareFn xs)"
  by (induction xs) (simp_all add: sorted_insert_sorted)

lemma filter_insert_sorted:
  "filter (\<lambda>r. gamesWon r = w \<and> bestScore r = s) (insert_sorted compareFn x ys) =
     filter (\<lambda>r. gamesWon r = w \<and> bestScore r = s) (x # ys)"
proof (induction ys)
  case Nil
  show ?case by simp
next
  case (Cons y ys)
  show ?case
  proof (cases "compareFn x y \<le> 0")
    case True
    then show ?thesis by simp
  next
    case False
    then have "\<not> (gamesWon x = gamesWon y \<and> bestScore x = bestScore y)"
      by (auto simp add: compareFn_le)
    then show ?thesis using False Cons by auto
  qed
qed

lemma filter_sort_js:
  "filter (\<lambda>r. gamesWon r = w \<and> bestScore r = s) (sort_js compareFn xs) =
     filter (\<lambda>r. gamesWon r = w \<and> bestScore r = s) xs"
  by (induction xs) (simp_all add: filter_insert_sorted)

text \<open>
  C9. For every list of scanned records, the leaderboard is ordered by \<^verbatim>\<open>gamesWon\<close>
  descending and then \<^verbatim>\<open>bestScore\<close> ascending, it holds the scanned records and no
  others, and the records that agree on both keys keep their order of the input.
\<close>

theorem leaderboard_order_stable:
  "sorted_wrt (\<lambda>a b. gamesWon b < gamesWon a
                    \<or> (gamesWon a = gamesWon b \<and> bestScore a \<le> bestScore b))
     (leaderboard difficultyParam items)
   \<and> mset (leaderboard difficultyParam items) = mset (scanItems difficultyParam items)
   \<and> filter (\<lambda>r. gamesWon r = w \<and> bestScore r = s) (leaderboard difficultyParam items)
       = filter (\<lambda>r. gamesWon r = w \<and> bestScore r = s) (scanItems difficultyParam items)"
  using sorted_sort_js [of "scanItems difficultyParam items"]
  by (simp add: leaderboard_def mset_sort_js filter_sort_js compareFn_le)

theorem leaderboard_order_stable_witness:
  "leaderboard None
     [\<lparr> gamesWon = 2, bestScore = 5, difficulty = ''easy'' \<rparr>,
      \<lparr> gamesWon = 3, bestScore = 9, difficulty = ''easy'' \<rparr>,
      \<lparr> gamesWon = 2, bestScore = 3, difficulty = ''hard'' \<rparr>,
      \<lparr> gamesWon = 2, bestScore = 5, difficulty = ''hard'' \<rparr>]
   = [\<lparr> gamesWon = 3, bestScore = 9, difficulty = ''easy'' \<rparr>,
      \<lparr> gamesWon = 2, bestScore = 3, difficulty = ''hard'' \<rparr>,
      \<lparr> gamesWon = 2, bestScore = 5, difficulty = ''easy'' \<rparr>,
      \<lparr> gamesWon = 2, bestScore = 5, difficulty = ''hard'' \<rparr>]
   \<and> filter (\<lambda>r. gamesWon r = 2 \<and> bestScore r = 5)
       (leaderboard None
         [\<lparr> gamesWon = 2, bestScore = 5, difficulty = ''easy'' \<rparr>,
          \<lparr> gamesWon = 3, bestScore = 9, difficulty = ''easy'' \<rparr>,
          \<lparr> gamesWon = 2, bestScore = 3, difficulty = ''hard'' \<rparr>,
          \<lparr> gamesWon = 2, bestScore = 5, difficulty = ''hard'' \<rparr>])
     = [\<lparr> gamesWon = 2, bestScore = 5, difficulty = ''easy'' \<rparr>,
        \<lparr> gamesWon = 2, bestScore = 5, difficulty = ''hard'' \<rparr>]"
  using leaderboard_order_stable
    [of None "[\<lparr> gamesWon = 2, bestScore = 5, difficulty = ''easy'' \<rparr>,
      \<lparr> gamesWon = 3, bestScore = 9, difficulty = ''easy'' \<rparr>,
      \<lparr> gamesWon = 2, bestScore = 3, difficulty = ''hard'' \<rparr>,
      \<lparr> gamesWon = 2, bestScore = 5, difficulty = ''hard'' \<rparr>]" 2 5]
  by (simp add: leaderboard_def scanItems_def compareFn_def)

end
